theory Spec2Isabelle
  imports Complex_Main
begin

section \<open>Timeline reconciliation of the dubbing pipeline\<close>

text \<open>
  The development follows \<^verbatim>\<open>VideoDubbing.__init__\<close> of \<^verbatim>\<open>src/app.py\<close>:
  the loop that fits every synthesized clip into the time slot of its sentence
  (lines 501-617), the sentence segmenter (lines 268-298) and the speaker
  attribution (lines 239 and 457-472).

  Time stamps are Python floats in seconds; they are modelled by \<^typ>\<open>real\<close>, so
  arithmetic is exact. Audio is handled by an external library: a segment is
  modelled by its duration only, \<^verbatim>\<open>len(audio)\<close> is a whole number of
  milliseconds, a silence lasts as long as requested and concatenation adds
  durations.
\<close>

subsection \<open>Errors and data\<close>

datatype py_error = IndexError | ZeroDivisionError | ValueError

text \<open>
  One entry of \<^verbatim>\<open>records\<close>:
  \<^verbatim>\<open>[translated, final_sentance, start, end, speaker, emotion]\<close>.
\<close>

record rec_entry =
  translated :: string
  final_sentance :: string
  rec_start :: real
  rec_end :: real
  speaker :: string
  emotion :: "string option"

text \<open>
  The three ways a clip is written to \<^verbatim>\<open>su_audio_chunks/i.wav\<close> before its
  trailing silence is added: the output of the tempo filter (speed factor and
  measured length in milliseconds), a pure silence (seconds), or the clip
  (milliseconds) behind a silence (seconds).
\<close>

datatype adjusted = Tempo real nat | Silent real | Padded real nat

datatype regime = Stretch | Drop | Pad

text \<open>
  One file of \<^verbatim>\<open>su_audio_chunks\<close>: its index, the value of
  \<^verbatim>\<open>previous_silence_time\<close> the iteration started with, the adjusted clip, and
  the two summands of the trailing silence
  \<^verbatim>\<open>(max(lo-lt,0)+natural_scilence)*1000\<close>.
\<close>

record chunk =
  idx :: nat
  credit :: real
  body :: adjusted
  shortfall :: real
  extra :: real

record loop_state =
  previous_silence_time :: real
  chunks :: "chunk list"

record track =
  prefix :: real
  pieces :: "chunk list"
  final_pad :: real

subsection \<open>The audio library\<close>

text \<open>Duration in seconds of \<^verbatim>\<open>AudioSegment.silent(duration=d*1000)\<close>.\<close>

definition silent :: "real \<Rightarrow> real" where
  "silent d = max d 0"

definition tip :: nat where
  "tip = 350"

text \<open>
  Length in milliseconds of \<^verbatim>\<open>audio[:len(audio)-tip]\<close> for a segment of
  \<open>n\<close> milliseconds. A stop below zero counts back from the end, as in every
  Python slice; the clips of the examples below are at least \<open>tip\<close> long.
\<close>

definition trim_tail :: "nat \<Rightarrow> nat" where
  "trim_tail n =
     (let stop = int n - int tip
      in if 0 \<le> stop then nat (min stop (int n)) else nat (max (int n + stop) 0))"

fun duration :: "adjusted \<Rightarrow> real" where
  "duration (Tempo factor out) = real out / 1000"
| "duration (Silent sc) = silent sc"
| "duration (Padded p clip) = silent p + real clip / 1000"

subsection \<open>Silence budget\<close>

text \<open>
  The source has the same four lines twice (504-509 for the leading gap and
  578-583 for every following gap): the first component is the new
  \<^verbatim>\<open>previous_silence_time\<close>, the second what is left of
  \<^verbatim>\<open>natural_scilence\<close>.
\<close>

definition cap_silence :: "real \<Rightarrow> real \<times> real" where
  "cap_silence natural_scilence =
     (if natural_scilence \<ge> 0.8 then (0.8, natural_scilence - 0.8)
      else (natural_scilence, 0))"

subsection \<open>Fitting one clip\<close>

definition select_regime :: "real \<Rightarrow> regime" where
  "select_regime theta =
     (if theta < 1 \<and> theta > 0.44 then Stretch
      else if theta < 0.44 then Drop
      else Pad)"

text \<open>
  Lines 547-570. \<open>atempo i clip factor\<close> stands for the run of the external tempo
  filter on \<^verbatim>\<open>audio_chunks/i.wav\<close>: the length of its output in milliseconds,
  or \<open>None\<close> when its return code is not zero.
\<close>

definition fit_clip ::
  "(nat \<Rightarrow> nat \<Rightarrow> real \<Rightarrow> nat option) \<Rightarrow> nat \<Rightarrow> nat \<Rightarrow> real \<Rightarrow> real \<Rightarrow> py_error + adjusted" where
  "fit_clip atempo i clip lo prev =
     (let lt = real clip / 1000
      in if lt = 0 then Inl ZeroDivisionError
         else
           let theta = lo / lt
           in case select_regime theta of
                Stretch \<Rightarrow>
                  (let theta_prim = (lo + prev) / lt
                   in if theta_prim = 0 then Inl ZeroDivisionError
                      else case atempo i clip (1 / theta_prim) of
                             Some out \<Rightarrow> Inr (Tempo (1 / theta_prim) out)
                           | None \<Rightarrow> Inr (Silent (lo + prev)))
              | Drop \<Rightarrow> Inr (Silent (lo + prev))
              | Pad \<Rightarrow> Inr (Padded prev clip))"

definition new_chunk :: "nat \<Rightarrow> real \<Rightarrow> adjusted \<Rightarrow> real \<Rightarrow> real \<Rightarrow> chunk" where
  "new_chunk i prev adj short natural_scilence =
     \<lparr>idx = i, credit = prev, body = adj, shortfall = short, extra = natural_scilence\<rparr>"

definition store_chunk :: "loop_state \<Rightarrow> real \<Rightarrow> chunk \<Rightarrow> loop_state" where
  "store_chunk st next_silence c =
     \<lparr>previous_silence_time = next_silence, chunks = chunks st @ [c]\<rparr>"

text \<open>
  One iteration of the loop of line 515. \<open>tts i\<close> stands for the synthesis of
  sentence \<open>i\<close>: the length in milliseconds of \<^verbatim>\<open>audio_chunks/i.wav\<close>, or
  \<open>None\<close> when \<^verbatim>\<open>synthesize_speech\<close> returns \<^verbatim>\<open>None\<close>. The caller keeps
  \<open>i\<close> below the length of \<open>records\<close>.
\<close>

definition reconcile ::
  "(nat \<Rightarrow> nat option) \<Rightarrow> (nat \<Rightarrow> nat \<Rightarrow> real \<Rightarrow> nat option) \<Rightarrow> rec_entry list \<Rightarrow> nat
     \<Rightarrow> loop_state \<Rightarrow> py_error + loop_state" where
  "reconcile tts atempo records i st =
     (case tts i of
        None \<Rightarrow> Inr st
      | Some raw \<Rightarrow>
          let clip = trim_tail raw;
              prev = previous_silence_time st;
              lo = max (rec_end (records ! i) - rec_start (records ! i)) 0
          in (case fit_clip atempo i clip lo prev of
                Inl e \<Rightarrow> Inl e
              | Inr adj \<Rightarrow>
                  (let lt = duration adj;
                       lo = rec_end (records ! i) - rec_start (records ! i) + prev
                   in if i + 1 < length records then
                        (case cap_silence (max (rec_start (records ! (i + 1)) - rec_end (records ! i)) 0) of
                           (next_silence, natural_scilence) \<Rightarrow>
                             Inr (store_chunk st next_silence
                                    (new_chunk i prev adj (max (lo - lt) 0) natural_scilence)))
                      else
                        Inr (store_chunk st prev (new_chunk i prev adj (max (lo - lt) 0) 0)))))"

fun reconcile_loop ::
  "(nat \<Rightarrow> nat option) \<Rightarrow> (nat \<Rightarrow> nat \<Rightarrow> real \<Rightarrow> nat option) \<Rightarrow> rec_entry list \<Rightarrow> nat list
     \<Rightarrow> loop_state \<Rightarrow> py_error + loop_state" where
  "reconcile_loop tts atempo records [] st = Inr st"
| "reconcile_loop tts atempo records (i # rest) st =
     (case reconcile tts atempo records i st of
        Inl e \<Rightarrow> Inl e
      | Inr st' \<Rightarrow> reconcile_loop tts atempo records rest st')"

text \<open>
  Lines 501-509: the state the loop starts with, from the first entry of
  \<^verbatim>\<open>records\<close>.
\<close>

definition start_state :: "rec_entry \<Rightarrow> loop_state" where
  "start_state r0 = \<lparr>previous_silence_time = fst (cap_silence (rec_start r0)), chunks = []\<rparr>"

text \<open>
  Lines 501-617: the leading gap, the loop over \<^verbatim>\<open>range(len(records))\<close>, and
  the assembly of prefix, chunks in index order and final silence.
  \<^verbatim>\<open>records[0]\<close> raises on an empty list.
\<close>

definition dub_track ::
  "(nat \<Rightarrow> nat option) \<Rightarrow> (nat \<Rightarrow> nat \<Rightarrow> real \<Rightarrow> nat option) \<Rightarrow> rec_entry list \<Rightarrow> real
     \<Rightarrow> py_error + track" where
  "dub_track tts atempo records total_length =
     (case records of
        [] \<Rightarrow> Inl IndexError
      | r0 # _ \<Rightarrow>
          (case reconcile_loop tts atempo records [0..<length records] (start_state r0) of
             Inl e \<Rightarrow> Inl e
           | Inr st \<Rightarrow>
               Inr \<lparr>prefix = silent (snd (cap_silence (rec_start r0))), pieces = chunks st,
                    final_pad = silent (abs (total_length - rec_end (last records)))\<rparr>))"

subsection \<open>Silence and pauses of a whole run\<close>

text \<open>The silence behind the adjusted clip of one chunk (lines 586 and 590).\<close>

definition trailing_silence :: "chunk \<Rightarrow> real" where
  "trailing_silence c = silent (shortfall c + extra c)"

definition emitted_silence :: "track \<Rightarrow> real" where
  "emitted_silence t = prefix t + sum_list (map trailing_silence (pieces t)) + final_pad t"

text \<open>The pauses between consecutive sentences on the original timeline (line 577).\<close>

fun gaps :: "rec_entry list \<Rightarrow> real list" where
  "gaps (a # b # rest) = max (rec_start b - rec_end a) 0 # gaps (b # rest)"
| "gaps rest = []"

definition original_pauses :: "rec_entry list \<Rightarrow> real \<Rightarrow> real" where
  "original_pauses records total_length =
     rec_start (hd records) + sum_list (gaps records) + abs (total_length - rec_end (last records))"

text \<open>What the chunks hold of the pauses: borrowed credit and literal extra silence.\<close>

definition pause_share :: "chunk \<Rightarrow> real" where
  "pause_share c = credit c + extra c"

subsection \<open>Sentence segmenter\<close>

text \<open>
  Lines 271-298. \<^verbatim>\<open>time_stamped\<close> holds \<^verbatim>\<open>[word, start, end]\<close> for every
  recognised word. The counter \<open>f\<close> numbers the characters of all words from 1;
  the character whose number is \<open>letter\<close> contributes the start and the end of
  its word to \<^verbatim>\<open>starts\<close>.
\<close>

fun scan_word :: "string \<Rightarrow> real \<Rightarrow> real \<Rightarrow> nat \<Rightarrow> nat \<Rightarrow> real list \<Rightarrow> nat \<times> real list" where
  "scan_word [] ws we letter f starts = (f, starts)"
| "scan_word (c # cs) ws we letter f starts =
     scan_word cs ws we letter (f + 1) (if f + 1 = letter then starts @ [ws, we] else starts)"

fun scan_words :: "(string \<times> real \<times> real) list \<Rightarrow> nat \<Rightarrow> nat \<Rightarrow> real list \<Rightarrow> real list" where
  "scan_words [] letter f starts = starts"
| "scan_words ((w, ws, we) # rest) letter f starts =
     (case scan_word w ws we letter f starts of
        (f', starts') \<Rightarrow> scan_words rest letter f' starts')"

text \<open>The loop over the characters of one sentence (line 276).\<close>

fun sentence_chars ::
  "(string \<times> real \<times> real) list \<Rightarrow> string \<Rightarrow> nat \<Rightarrow> real list \<Rightarrow> nat \<times> real list" where
  "sentence_chars time_stamped [] letter starts = (letter, starts)"
| "sentence_chars time_stamped (c # cs) letter starts =
     sentence_chars time_stamped cs (letter + 1) (scan_words time_stamped (letter + 1) 0 starts)"

text \<open>\<^verbatim>\<open>min\<close> and \<^verbatim>\<open>max\<close> of a Python list raise \<^verbatim>\<open>ValueError\<close> on an empty one.\<close>

definition py_min :: "real list \<Rightarrow> py_error + real" where
  "py_min xs = (case xs of [] \<Rightarrow> Inl ValueError | x # rest \<Rightarrow> Inr (fold min rest x))"

definition py_max :: "real list \<Rightarrow> py_error + real" where
  "py_max xs = (case xs of [] \<Rightarrow> Inl ValueError | x # rest \<Rightarrow> Inr (fold max rest x))"

text \<open>
  \<^verbatim>\<open>d[k] = v\<close> on a Python dictionary, kept as a list of items in insertion
  order: an existing key keeps its place.
\<close>

fun dict_set :: "('k \<times> 'v) list \<Rightarrow> 'k \<Rightarrow> 'v \<Rightarrow> ('k \<times> 'v) list" where
  "dict_set [] k v = [(k, v)]"
| "dict_set ((k', v') # rest) k v =
     (if k' = k then (k, v) # rest else (k', v') # dict_set rest k v)"

fun stamp_sentences ::
  "(string \<times> real \<times> real) list \<Rightarrow> string list \<Rightarrow> nat \<Rightarrow> (string \<times> real \<times> real) list
     \<Rightarrow> py_error + (string \<times> real \<times> real) list" where
  "stamp_sentences time_stamped [] letter time_stamped_sentances = Inr time_stamped_sentances"
| "stamp_sentences time_stamped (s # rest) letter time_stamped_sentances =
     (case sentence_chars time_stamped s letter [] of
        (letter', starts) \<Rightarrow>
          (case py_min starts of
             Inl e \<Rightarrow> Inl e
           | Inr lo \<Rightarrow>
               (case py_max starts of
                  Inl e \<Rightarrow> Inl e
                | Inr hi \<Rightarrow>
                    stamp_sentences time_stamped rest (letter' + 1)
                      (dict_set time_stamped_sentances s (lo, hi)))))"

text \<open>The list \<^verbatim>\<open>record\<close> of line 295, or the error that ends the run.\<close>

definition segment ::
  "(string \<times> real \<times> real) list \<Rightarrow> string list \<Rightarrow> py_error + (string \<times> real \<times> real) list" where
  "segment time_stamped sentences = stamp_sentences time_stamped sentences 0 []"

text \<open>
  The value of \<^verbatim>\<open>letter\<close> when the loop of line 272 reaches the sentence after
  the sentences \<open>before\<close>.
\<close>

definition letter_after :: "string list \<Rightarrow> nat" where
  "letter_after before = sum_list (map (\<lambda>s. length s + 1) before)"

subsection \<open>Speaker attribution\<close>








subsection \<open>Example inputs\<close>

definition sentence :: "real \<Rightarrow> real \<Rightarrow> rec_entry" where
  "sentence a b =
     \<lparr>translated = [], final_sentance = [], rec_start = a, rec_end = b, speaker = [], emotion = None\<rparr>"

definition tts_always :: "nat \<Rightarrow> nat \<Rightarrow> nat option" where
  "tts_always raw i = Some raw"

definition tts_from :: "nat \<Rightarrow> nat \<Rightarrow> nat \<Rightarrow> nat option" where
  "tts_from k raw i = (if i < k then None else Some raw)"

definition atempo_fails :: "nat \<Rightarrow> nat \<Rightarrow> real \<Rightarrow> nat option" where
  "atempo_fails i clip factor = None"

definition atempo_gives :: "nat \<Rightarrow> nat \<Rightarrow> nat \<Rightarrow> real \<Rightarrow> nat option" where
  "atempo_gives out i clip factor = Some out"


section \<open>Properties\<close>

subsection \<open>Auxiliary facts\<close>

lemma cap_silence_sum: "fst (cap_silence g) + snd (cap_silence g) = g"
  by (simp add: cap_silence_def)

lemma cap_silence_range: "0 \<le> g \<Longrightarrow> 0 \<le> fst (cap_silence g) \<and> fst (cap_silence g) \<le> 0.8"
  by (simp add: cap_silence_def)

lemma upt2: "[0..<2] = [0, 1]"
  by (simp add: upt_rec)

lemma reconcile_skip: "tts i = None \<Longrightarrow> reconcile tts atempo records i st = Inr st"
  by (simp add: reconcile_def)

lemma fit_clip_zero: "fit_clip atempo i 0 lo prev = Inl ZeroDivisionError"
  by (simp add: fit_clip_def)

lemma reconcile_step:
  assumes "tts i = Some raw" and "reconcile tts atempo records i st = Inr st'"
  shows "\<exists>adj short.
           fit_clip atempo i (trim_tail raw)
             (max (rec_end (records ! i) - rec_start (records ! i)) 0) (previous_silence_time st) = Inr adj \<and>
           short = max (rec_end (records ! i) - rec_start (records ! i) + previous_silence_time st - duration adj) 0 \<and>
           (if i + 1 < length records
            then st' = store_chunk st
                         (fst (cap_silence (max (rec_start (records ! (i + 1)) - rec_end (records ! i)) 0)))
                         (new_chunk i (previous_silence_time st) adj short
                            (snd (cap_silence (max (rec_start (records ! (i + 1)) - rec_end (records ! i)) 0))))
            else st' = store_chunk st (previous_silence_time st)
                         (new_chunk i (previous_silence_time st) adj short 0))"
  using assms
  by (auto simp add: reconcile_def Let_def split: sum.splits prod.splits if_splits)

lemma reconcile_range:
  assumes "reconcile tts atempo records i st = Inr st'"
    and "0 \<le> previous_silence_time st \<and> previous_silence_time st \<le> 0.8"
  shows "0 \<le> previous_silence_time st' \<and> previous_silence_time st' \<le> 0.8"
proof (cases "tts i")
  case None
  with assms show ?thesis by (simp add: reconcile_def)
next
  case (Some raw)
  define gap where "gap = max (rec_start (records ! (i + 1)) - rec_end (records ! i)) 0"
  have "0 \<le> gap" by (simp add: gap_def)
  then have r: "0 \<le> fst (cap_silence gap) \<and> fst (cap_silence gap) \<le> 0.8"
    by (rule cap_silence_range)
  from reconcile_step [OF Some assms(1)]
  have "previous_silence_time st' = fst (cap_silence gap) \<or>
        previous_silence_time st' = previous_silence_time st"
    unfolding gap_def by (auto simp add: store_chunk_def split: if_splits)
  with r assms(2) show ?thesis by auto
qed

lemma reconcile_loop_range:
  "reconcile_loop tts atempo records is st = Inr st' \<Longrightarrow>
   0 \<le> previous_silence_time st \<and> previous_silence_time st \<le> 0.8 \<Longrightarrow>
   0 \<le> previous_silence_time st' \<and> previous_silence_time st' \<le> 0.8"
proof (induction "is" arbitrary: st)
  case Nil
  then show ?case by simp
next
  case (Cons i rest)
  from Cons.prems(1) obtain st1 where
    s1: "reconcile tts atempo records i st = Inr st1" and
    s2: "reconcile_loop tts atempo records rest st1 = Inr st'"
    by (auto split: sum.splits)
  from reconcile_range [OF s1 Cons.prems(2)] Cons.IH [OF s2] show ?case
    by blast
qed

lemma theta_nonzero_clip: "0 < lo / (real clip / 1000) \<Longrightarrow> real clip / 1000 \<noteq> 0"
  by (cases "clip = 0") auto

lemma reconcile_loop_idx:
  "reconcile_loop tts atempo records is st = Inr st' \<Longrightarrow>
   idx ` set (chunks st') \<subseteq> idx ` set (chunks st) \<union> {i \<in> set is. tts i \<noteq> None}"
proof (induction "is" arbitrary: st)
  case Nil
  then show ?case by simp
next
  case (Cons i rest)
  from Cons.prems obtain st1 where
    s1: "reconcile tts atempo records i st = Inr st1" and
    s2: "reconcile_loop tts atempo records rest st1 = Inr st'"
    by (auto split: sum.splits)
  have "idx ` set (chunks st1) \<subseteq> idx ` set (chunks st) \<union> {j \<in> {i}. tts j \<noteq> None}"
  proof (cases "tts i")
    case None
    with s1 show ?thesis by (simp add: reconcile_def)
  next
    case (Some raw)
    from reconcile_step [OF Some s1] show ?thesis
      using Some by (auto simp add: store_chunk_def new_chunk_def split: if_splits)
  qed
  with Cons.IH [OF s2] show ?case
    by auto
qed

lemma run_skip_first:
  "dub_track (tts_from 1 1350) atempo_fails [sentence 0 1, sentence 2 3] 3
     = Inr \<lparr>prefix = 0, pieces = [new_chunk 1 0 (Padded 0 1000) 0 0], final_pad = 0\<rparr>"
proof -
  have s0: "reconcile (tts_from 1 1350) atempo_fails [sentence 0 1, sentence 2 3] 0 (start_state (sentence 0 1))
         = Inr (start_state (sentence 0 1))"
    by (simp add: reconcile_def tts_from_def)
  have s1: "reconcile (tts_from 1 1350) atempo_fails [sentence 0 1, sentence 2 3] 1 (start_state (sentence 0 1))
         = Inr \<lparr>previous_silence_time = 0, chunks = [new_chunk 1 0 (Padded 0 1000) 0 0]\<rparr>"
    by (simp add: reconcile_def tts_from_def trim_tail_def tip_def sentence_def start_state_def
        cap_silence_def fit_clip_def select_regime_def silent_def store_chunk_def Let_def)
  show ?thesis
    using s0 s1 by (simp add: dub_track_def upt_rec [of 0] upt_rec [of 1] silent_def cap_silence_def sentence_def)
qed

lemma sentence_chars_letter:
  "fst (sentence_chars time_stamped s letter starts) = letter + length s"
  by (induction s arbitrary: letter starts) simp_all

lemma py_min_error: "py_min xs = Inl e \<Longrightarrow> e = ValueError"
  by (simp add: py_min_def split: list.splits)

lemma py_max_error: "py_max xs = Inl e \<Longrightarrow> e = ValueError"
  by (simp add: py_max_def split: list.splits)

lemma stamp_sentences_unmatched:
  "snd (sentence_chars time_stamped s (letter + letter_after before) []) = [] \<Longrightarrow>
   stamp_sentences time_stamped (before @ s # rest) letter d = Inl ValueError"
proof (induction before arbitrary: letter d)
  case Nil
  then show ?case
    by (auto simp add: letter_after_def py_min_def split: prod.splits)
next
  case (Cons b before)
  obtain l' starts where sc: "sentence_chars time_stamped b letter [] = (l', starts)"
    by (cases "sentence_chars time_stamped b letter []")
  with sentence_chars_letter [of time_stamped b letter "[]"] have l': "l' = letter + length b"
    by simp
  have next_letter: "(l' + 1) + letter_after before = letter + letter_after (b # before)"
    by (simp add: l' letter_after_def)
  from Cons.prems have
    "snd (sentence_chars time_stamped s ((l' + 1) + letter_after before) []) = []"
    by (simp only: next_letter)
  from Cons.IH [OF this]
  have rest: "stamp_sentences time_stamped (before @ s # rest) (l' + 1) d' = Inl ValueError" for d'
    by simp
  show ?case
    using sc rest py_min_error py_max_error
    by (auto split: sum.splits)
qed





lemma cap_silence_snd_nonneg: "0 \<le> snd (cap_silence g)"
  by (simp add: cap_silence_def)

lemma reconcile_share:
  assumes "tts i = Some raw" and "reconcile tts atempo records i st = Inr st1"
  shows "sum_list (map pause_share (chunks st1)) + (if i + 1 < length records then previous_silence_time st1 else 0)
       = sum_list (map pause_share (chunks st)) + previous_silence_time st
         + (if i + 1 < length records then max (rec_start (records ! (i + 1)) - rec_end (records ! i)) 0 else 0)"
proof -
  define gap where "gap = max (rec_start (records ! (i + 1)) - rec_end (records ! i)) 0"
  from reconcile_step [OF assms] obtain adj short where
    st1: "if i + 1 < length records
          then st1 = store_chunk st (fst (cap_silence gap))
                       (new_chunk i (previous_silence_time st) adj short (snd (cap_silence gap)))
          else st1 = store_chunk st (previous_silence_time st)
                       (new_chunk i (previous_silence_time st) adj short 0)"
    unfolding gap_def by blast
  show ?thesis
  proof (cases "i + 1 < length records")
    case True
    with st1 have "st1 = store_chunk st (fst (cap_silence gap))
                       (new_chunk i (previous_silence_time st) adj short (snd (cap_silence gap)))"
      by simp
    then have "sum_list (map pause_share (chunks st1)) + previous_silence_time st1
        = sum_list (map pause_share (chunks st)) + previous_silence_time st
          + (fst (cap_silence gap) + snd (cap_silence gap))"
      by (simp add: store_chunk_def new_chunk_def pause_share_def)
    with True show ?thesis
      by (simp add: cap_silence_sum gap_def)
  next
    case False
    with st1 have "st1 = store_chunk st (previous_silence_time st)
                       (new_chunk i (previous_silence_time st) adj short 0)"
      by simp
    with False show ?thesis
      by (simp add: store_chunk_def new_chunk_def pause_share_def)
  qed
qed

lemma gaps_drop:
  assumes "k + 1 < length records"
  shows "sum_list (gaps (drop k records))
       = max (rec_start (records ! (k + 1)) - rec_end (records ! k)) 0 + sum_list (gaps (drop (k + 1) records))"
proof -
  from assms have "drop k records = records ! k # drop (Suc k) records"
    by (simp add: Cons_nth_drop_Suc)
  moreover from assms have "drop (Suc k) records = records ! Suc k # drop (Suc (Suc k)) records"
    by (simp add: Cons_nth_drop_Suc)
  ultimately have "drop k records = records ! k # records ! Suc k # drop (Suc (Suc k)) records"
    by simp
  then have "gaps (drop k records) =
      max (rec_start (records ! Suc k) - rec_end (records ! k)) 0 # gaps (records ! Suc k # drop (Suc (Suc k)) records)"
    by simp
  with \<open>drop (Suc k) records = records ! Suc k # drop (Suc (Suc k)) records\<close> show ?thesis
    by simp
qed

lemma gaps_drop_last:
  assumes "k + 1 = length records"
  shows "gaps (drop k records) = []"
proof -
  from assms have "k < length records" by simp
  then have "drop k records = records ! k # drop (Suc k) records"
    by (simp add: Cons_nth_drop_Suc)
  moreover from assms have "drop (Suc k) records = []" by simp
  ultimately show ?thesis by simp
qed

lemma reconcile_loop_share:
  assumes "\<forall>i<length records. tts i \<noteq> None"
  shows "k < length records \<Longrightarrow> m = length records - k \<Longrightarrow>
         reconcile_loop tts atempo records [k..<length records] st = Inr st' \<Longrightarrow>
         sum_list (map pause_share (chunks st'))
           = sum_list (map pause_share (chunks st)) + previous_silence_time st
             + sum_list (gaps (drop k records))"
proof (induction m arbitrary: k st)
  case 0
  then show ?case by simp
next
  case (Suc m)
  from Suc.prems(1) assms obtain raw where raw: "tts k = Some raw"
    by auto
  from Suc.prems(1) have upt: "[k..<length records] = k # [Suc k..<length records]"
    by (simp add: upt_conv_Cons)
  from Suc.prems(3) obtain st1 where
    s1: "reconcile tts atempo records k st = Inr st1" and
    s2: "reconcile_loop tts atempo records [Suc k..<length records] st1 = Inr st'"
    unfolding upt by (auto split: sum.splits)
  show ?case
  proof (cases "k + 1 < length records")
    case True
    from Suc.prems(2) have m: "m = length records - Suc k" by simp
    from True have "Suc k < length records" by simp
    from Suc.IH [OF this m s2]
    have "sum_list (map pause_share (chunks st'))
        = sum_list (map pause_share (chunks st1)) + previous_silence_time st1
          + sum_list (gaps (drop (Suc k) records))" .
    with reconcile_share [OF raw s1] True gaps_drop [OF True] show ?thesis
      by simp
  next
    case False
    with Suc.prems(1) have last: "k + 1 = length records" by simp
    then have "[Suc k..<length records] = []" by simp
    with s2 have "st' = st1" by simp
    with reconcile_share [OF raw s1] False gaps_drop_last [OF last] show ?thesis
      by simp
  qed
qed

lemma run_two_padded:
  "dub_track (tts_always 1350) atempo_fails [sentence 1 2, sentence 3.5 4.5] 5
     = Inr \<lparr>prefix = 0.2,
            pieces = [new_chunk 0 0.8 (Padded 0.8 1000) 0 0.7, new_chunk 1 0.8 (Padded 0.8 1000) 0 0],
            final_pad = 0.5\<rparr>"
proof -
  have s0: "reconcile (tts_always 1350) atempo_fails [sentence 1 2, sentence 3.5 4.5] 0
       (start_state (sentence 1 2))
     = Inr \<lparr>previous_silence_time = 0.8, chunks = [new_chunk 0 0.8 (Padded 0.8 1000) 0 0.7]\<rparr>"
    by (simp add: reconcile_def tts_always_def trim_tail_def tip_def sentence_def start_state_def
        cap_silence_def fit_clip_def select_regime_def silent_def store_chunk_def Let_def)
  have s1: "reconcile (tts_always 1350) atempo_fails [sentence 1 2, sentence 3.5 4.5] 1
       \<lparr>previous_silence_time = 0.8, chunks = [new_chunk 0 0.8 (Padded 0.8 1000) 0 0.7]\<rparr>
     = Inr \<lparr>previous_silence_time = 0.8,
            chunks = [new_chunk 0 0.8 (Padded 0.8 1000) 0 0.7, new_chunk 1 0.8 (Padded 0.8 1000) 0 0]\<rparr>"
    by (simp add: reconcile_def tts_always_def trim_tail_def tip_def sentence_def
        cap_silence_def fit_clip_def select_regime_def silent_def store_chunk_def Let_def)
  show ?thesis
    using s0 s1
    by (simp add: dub_track_def upt_rec [of 0] upt_rec [of 1] silent_def cap_silence_def sentence_def)
qed

lemma run_short_clip:
  "dub_track (tts_always 2350) atempo_fails [sentence 0 3] 3
     = Inr \<lparr>prefix = 0, pieces = [new_chunk 0 0 (Padded 0 2000) 1 0], final_pad = 0\<rparr>"
proof -
  have s0: "reconcile (tts_always 2350) atempo_fails [sentence 0 3] 0 (start_state (sentence 0 3))
     = Inr \<lparr>previous_silence_time = 0, chunks = [new_chunk 0 0 (Padded 0 2000) 1 0]\<rparr>"
    by (simp add: reconcile_def tts_always_def trim_tail_def tip_def sentence_def start_state_def
        cap_silence_def fit_clip_def select_regime_def silent_def store_chunk_def Let_def)
  show ?thesis
    using s0
    by (simp add: dub_track_def upt_rec [of 0] silent_def cap_silence_def sentence_def)
qed







subsection \<open>Silence budget tracker\<close>

text \<open>
  Claim C4. When sentence \<open>i\<close> has been synthesized and has a successor, the
  iteration computes \<open>gap = max (nextStart - thisEnd) 0\<close>; for \<open>gap \<ge> 0.8\<close>
  the next \<^verbatim>\<open>previous_silence_time\<close> is exactly \<open>0.8\<close> and \<open>gap - 0.8\<close> is the
  extra silence of the chunk written now, otherwise the next
  \<^verbatim>\<open>previous_silence_time\<close> is \<open>gap\<close> and the extra silence is \<open>0\<close>. A gap of
  1.2 seconds gives 0.8 and 0.4.
\<close>

theorem tracker_update:
  assumes "tts i = Some raw" and "i + 1 < length records"
    and "reconcile tts atempo records i st = Inr st'"
  shows "(let gap = max (rec_start (records ! (i + 1)) - rec_end (records ! i)) 0
          in previous_silence_time st' = (if gap \<ge> 0.8 then 0.8 else gap) \<and>
             extra (last (chunks st')) = (if gap \<ge> 0.8 then gap - 0.8 else 0)) \<and>
         cap_silence 1.2 = (0.8, 0.4)"
proof -
  define gap where "gap = max (rec_start (records ! (i + 1)) - rec_end (records ! i)) 0"
  from reconcile_step [OF assms(1) assms(3)] assms(2) obtain adj short where
    st': "st' = store_chunk st (fst (cap_silence gap))
                  (new_chunk i (previous_silence_time st) adj short (snd (cap_silence gap)))"
    unfolding gap_def by auto
  have "previous_silence_time st' = (if gap \<ge> 0.8 then 0.8 else gap)"
    by (simp add: st' store_chunk_def cap_silence_def)
  moreover have "extra (last (chunks st')) = (if gap \<ge> 0.8 then gap - 0.8 else 0)"
    by (simp add: st' store_chunk_def new_chunk_def cap_silence_def)
  moreover have "cap_silence 1.2 = (0.8, 0.4)"
    by (simp add: cap_silence_def)
  ultimately show ?thesis
    unfolding gap_def Let_def by blast
qed


theorem tracker_update_witness:
  "tts_always 1350 0 = Some 1350 \<and>
   0 + 1 < length [sentence 0 1, sentence 2.2 3] \<and>
   reconcile (tts_always 1350) atempo_fails [sentence 0 1, sentence 2.2 3] 0 (start_state (sentence 0 1))
     = Inr (store_chunk (start_state (sentence 0 1)) 0.8 (new_chunk 0 0 (Padded 0 1000) 0 0.4)) \<and>
   previous_silence_time (store_chunk (start_state (sentence 0 1)) 0.8 (new_chunk 0 0 (Padded 0 1000) 0 0.4)) = 0.8 \<and>
   extra (last (chunks (store_chunk (start_state (sentence 0 1)) 0.8 (new_chunk 0 0 (Padded 0 1000) 0 0.4)))) = 0.4"
proof -
  have h1: "tts_always 1350 0 = Some 1350"
    by (simp add: tts_always_def)
  have h2: "0 + 1 < length [sentence 0 1, sentence 2.2 3]"
    by simp
  have h3: "reconcile (tts_always 1350) atempo_fails [sentence 0 1, sentence 2.2 3] 0 (start_state (sentence 0 1))
     = Inr (store_chunk (start_state (sentence 0 1)) 0.8 (new_chunk 0 0 (Padded 0 1000) 0 0.4))"
    by (simp add: reconcile_def tts_always_def trim_tail_def tip_def sentence_def start_state_def
        cap_silence_def fit_clip_def select_regime_def silent_def)
  from tracker_update [OF h1 h2 h3] h1 h2 h3 show ?thesis
    by (simp add: sentence_def)
qed

text \<open>
  Claim C3. With a leading gap that is not negative, \<^verbatim>\<open>previous_silence_time\<close>
  lies in the closed interval from 0 to 0.8 after the initialisation and
  after every number \<open>k\<close> of iterations of the loop.
\<close>

theorem pending_silence_bounded:
  assumes "records \<noteq> []" and "0 \<le> rec_start (hd records)" and "k \<le> length records"
    and "reconcile_loop tts atempo records [0..<k] (start_state (hd records)) = Inr st"
  shows "0 \<le> previous_silence_time (start_state (hd records)) \<and>
         previous_silence_time (start_state (hd records)) \<le> 0.8 \<and>
         0 \<le> previous_silence_time st \<and> previous_silence_time st \<le> 0.8"
proof -
  have init: "0 \<le> previous_silence_time (start_state (hd records)) \<and>
        previous_silence_time (start_state (hd records)) \<le> 0.8"
    using cap_silence_range [OF assms(2)] by (simp add: start_state_def)
  with reconcile_loop_range [OF assms(4)] show ?thesis
    by blast
qed

theorem pending_silence_bounded_witness:
  "[sentence 1 2, sentence 3.5 4.5] \<noteq> [] \<and>
   0 \<le> rec_start (hd [sentence 1 2, sentence 3.5 4.5]) \<and>
   2 \<le> length [sentence 1 2, sentence 3.5 4.5] \<and>
   reconcile_loop (tts_always 1350) atempo_fails [sentence 1 2, sentence 3.5 4.5] [0..<2]
       (start_state (hd [sentence 1 2, sentence 3.5 4.5]))
     = Inr \<lparr>previous_silence_time = 0.8,
            chunks = [new_chunk 0 0.8 (Padded 0.8 1000) 0 0.7, new_chunk 1 0.8 (Padded 0.8 1000) 0 0]\<rparr> \<and>
   previous_silence_time (start_state (hd [sentence 1 2, sentence 3.5 4.5])) = 0.8"
proof -
  have h1: "[sentence 1 2, sentence 3.5 4.5] \<noteq> []"
    by simp
  have h2: "0 \<le> rec_start (hd [sentence 1 2, sentence 3.5 4.5])"
    by (simp add: sentence_def)
  have h3: "2 \<le> length [sentence 1 2, sentence 3.5 4.5]"
    by simp
  have s0: "reconcile (tts_always 1350) atempo_fails [sentence 1 2, sentence 3.5 4.5] 0
       (start_state (hd [sentence 1 2, sentence 3.5 4.5]))
     = Inr \<lparr>previous_silence_time = 0.8, chunks = [new_chunk 0 0.8 (Padded 0.8 1000) 0 0.7]\<rparr>"
    by (simp add: reconcile_def tts_always_def trim_tail_def tip_def sentence_def start_state_def
        cap_silence_def fit_clip_def select_regime_def silent_def store_chunk_def Let_def)
  have s1: "reconcile (tts_always 1350) atempo_fails [sentence 1 2, sentence 3.5 4.5] 1
       \<lparr>previous_silence_time = 0.8, chunks = [new_chunk 0 0.8 (Padded 0.8 1000) 0 0.7]\<rparr>
     = Inr \<lparr>previous_silence_time = 0.8,
            chunks = [new_chunk 0 0.8 (Padded 0.8 1000) 0 0.7, new_chunk 1 0.8 (Padded 0.8 1000) 0 0]\<rparr>"
    by (simp add: reconcile_def tts_always_def trim_tail_def tip_def sentence_def
        cap_silence_def fit_clip_def select_regime_def silent_def store_chunk_def Let_def)
  have h4: "reconcile_loop (tts_always 1350) atempo_fails [sentence 1 2, sentence 3.5 4.5] [0..<2]
       (start_state (hd [sentence 1 2, sentence 3.5 4.5]))
     = Inr \<lparr>previous_silence_time = 0.8,
            chunks = [new_chunk 0 0.8 (Padded 0.8 1000) 0 0.7, new_chunk 1 0.8 (Padded 0.8 1000) 0 0]\<rparr>"
    using s0 s1 by (simp add: upt2)
  from pending_silence_bounded [OF h1 h2 h3 h4] h1 h2 h3 h4 show ?thesis
    by (simp add: start_state_def cap_silence_def sentence_def)
qed

subsection \<open>Timing reconciler\<close>

text \<open>
  Claim C1. The regime is a function of \<open>theta = slot / clipDuration\<close> alone, but
  the boundary \<open>theta = 0.44\<close> is not the drop regime: for a sentence from 0 to
  0.44 seconds and a synthesized clip of 1350 ms (1000 ms after the trim)
  \<open>theta\<close> is exactly 0.44, neither \<open>theta > 0.44\<close> nor \<open>theta < 0.44\<close> holds, and the
  clip is padded and kept at full length.
\<close>

theorem theta_boundary_takes_pad:
  "trim_tail 1350 = 1000 \<and>
   max (rec_end (sentence 0 0.44) - rec_start (sentence 0 0.44)) 0 / (real (trim_tail 1350) / 1000) = 0.44 \<and>
   select_regime (0.44 / (real (trim_tail 1350) / 1000)) = Pad \<and>
   fit_clip atempo i (trim_tail 1350) (max (rec_end (sentence 0 0.44) - rec_start (sentence 0 0.44)) 0) prev
     = Inr (Padded prev 1000)"
  by (simp add: trim_tail_def tip_def sentence_def select_regime_def fit_clip_def)

text \<open>
  Claim C5. In the stretch regime the tempo filter is run with the speed factor
  \<open>1 / targetRatio\<close>, where \<open>targetRatio = (slot + pendingSilence) / clipDuration\<close>;
  when the filter fails the result is not an error but a silence of
  \<open>slot + pendingSilence\<close> seconds. The witness is scenario A of the
  specification: slot 2.0, clip 2.5 and pending silence 0.3 give the ratio 0.92
  and a factor within a thousandth of 1.087.
\<close>

theorem stretch_regime:
  assumes "0.44 < lo / (real clip / 1000)" and "lo / (real clip / 1000) < 1" and "0 \<le> prev"
  shows "select_regime (lo / (real clip / 1000)) = Stretch \<and>
         fit_clip atempo i clip lo prev =
           (case atempo i clip (1 / ((lo + prev) / (real clip / 1000))) of
              Some out \<Rightarrow> Inr (Tempo (1 / ((lo + prev) / (real clip / 1000))) out)
            | None \<Rightarrow> Inr (Silent (lo + prev))) \<and>
         duration (Silent (lo + prev)) = lo + prev"
proof -
  have "(0::real) < 0.44" by simp
  from this assms(1) have "0 < lo / (real clip / 1000)"
    by (rule less_trans)
  then have nz: "real clip / 1000 \<noteq> 0"
    by (rule theta_nonzero_clip)
  then have cpos: "0 < real clip / 1000" by simp
  have reg: "select_regime (lo / (real clip / 1000)) = Stretch"
    using assms(1,2) by (simp add: select_regime_def)
  have lopos: "0 < lo"
  proof (rule ccontr)
    assume "\<not> 0 < lo"
    then have "lo / (real clip / 1000) \<le> 0"
      using cpos by (simp add: divide_le_0_iff)
    with assms(1) show False by simp
  qed
  then have "(lo + prev) / (real clip / 1000) \<noteq> 0"
    using assms(3) nz by simp
  then have "fit_clip atempo i clip lo prev =
           (case atempo i clip (1 / ((lo + prev) / (real clip / 1000))) of
              Some out \<Rightarrow> Inr (Tempo (1 / ((lo + prev) / (real clip / 1000))) out)
            | None \<Rightarrow> Inr (Silent (lo + prev)))"
    using nz reg by (simp add: fit_clip_def Let_def split: option.splits)
  moreover have "duration (Silent (lo + prev)) = lo + prev"
    using lopos assms(3) by (simp add: silent_def)
  ultimately show ?thesis using reg by blast
qed

theorem stretch_regime_witness:
  "0.44 < 2.0 / (real 2500 / 1000) \<and> 2.0 / (real 2500 / 1000) < (1::real) \<and> (0::real) \<le> 0.3 \<and>
   (2.0 + 0.3) / (real 2500 / 1000) = (0.92::real) \<and>
   fit_clip atempo_fails 0 2500 2.0 0.3 = Inr (Silent 2.3) \<and>
   fit_clip (atempo_gives 2300) 0 2500 2.0 0.3 = Inr (Tempo (1 / 0.92) 2300) \<and>
   \<bar>1 / 0.92 - 1.087\<bar> < (0.001::real)"
proof -
  have h1: "0.44 < 2.0 / (real 2500 / 1000)" by simp
  have h2: "2.0 / (real 2500 / 1000) < (1::real)" by simp
  have h3: "(0::real) \<le> 0.3" by simp
  from stretch_regime [OF h1 h2 h3, of atempo_fails 0]
       stretch_regime [OF h1 h2 h3, of "atempo_gives 2300" 0] h1 h2 h3
  show ?thesis
    by (simp add: atempo_fails_def atempo_gives_def)
qed

text \<open>
  Claim C7. In the pad regime (\<open>theta \<ge> 1\<close>) the clip is written behind
  \<open>pendingSilence\<close> seconds of silence, the tempo filter is not consulted, and
  the duration of the result is \<open>clipDuration + pendingSilence\<close>.
\<close>

theorem pad_regime:
  assumes "1 \<le> lo / (real clip / 1000)" and "0 \<le> prev"
  shows "select_regime (lo / (real clip / 1000)) = Pad \<and>
         fit_clip atempo i clip lo prev = Inr (Padded prev clip) \<and>
         duration (Padded prev clip) = real clip / 1000 + prev"
proof -
  from assms(1) have nz: "real clip / 1000 \<noteq> 0"
    by (intro theta_nonzero_clip [of lo]) linarith
  have reg: "select_regime (lo / (real clip / 1000)) = Pad"
    using assms(1) by (simp add: select_regime_def)
  have "fit_clip atempo i clip lo prev = Inr (Padded prev clip)"
    using nz reg by (simp add: fit_clip_def Let_def)
  moreover have "duration (Padded prev clip) = real clip / 1000 + prev"
    using assms(2) by (simp add: silent_def)
  ultimately show ?thesis using reg by blast
qed

theorem pad_regime_witness:
  "1 \<le> 3 / (real 2000 / 1000) \<and> (0::real) \<le> 0.5 \<and>
   fit_clip atempo_fails 0 2000 3 0.5 = Inr (Padded 0.5 2000) \<and>
   duration (Padded 0.5 2000) = 2.5"
proof -
  have h1: "1 \<le> 3 / (real 2000 / 1000)" by simp
  have h2: "(0::real) \<le> 0.5" by simp
  from pad_regime [OF h1 h2, of atempo_fails 0] h1 h2 show ?thesis
    by simp
qed

text \<open>
  Claim C10. The division \<open>slot / clipDuration\<close> is not guarded: a synthesized clip
  of 350 ms is empty after the trim, and every clip that is empty after the trim
  ends the iteration with a division by zero.
\<close>

theorem zero_length_clip_raises:
  "trim_tail 350 = 0 \<and>
   (tts i = Some raw \<and> trim_tail raw = 0 \<longrightarrow>
      reconcile tts atempo records i st = Inl ZeroDivisionError)"
  by (simp add: trim_tail_def tip_def reconcile_def fit_clip_zero)

theorem zero_length_clip_raises_witness:
  "tts_always 350 0 = Some 350 \<and> trim_tail 350 = 0 \<and>
   reconcile (tts_always 350) atempo_fails [sentence 0 1] 0 (start_state (sentence 0 1))
     = Inl ZeroDivisionError"
  using zero_length_clip_raises [of "tts_always 350" 0 350 atempo_fails "[sentence 0 1]" "start_state (sentence 0 1)"]
  by (simp add: tts_always_def)

subsection \<open>Failed synthesis\<close>

text \<open>
  Claim C9. When the synthesis of sentence \<open>i\<close> returns nothing, the iteration
  leaves the state as it is: \<^verbatim>\<open>previous_silence_time\<close> keeps its value, no
  chunk is stored, the rest of the loop continues from the unchanged state, so
  neither the slot of the sentence nor the gap behind it enters the track, and
  the assembled track has no chunk with index \<open>i\<close>.
\<close>

theorem failed_synthesis_skipped:
  assumes "tts i = None"
  shows "reconcile tts atempo records i st = Inr st \<and>
         reconcile_loop tts atempo records (i # rest) st = reconcile_loop tts atempo records rest st \<and>
         (\<forall>t. dub_track tts atempo records total_length = Inr t \<longrightarrow> i \<notin> idx ` set (pieces t))"
proof -
  have skip: "reconcile tts atempo records i st = Inr st"
    using assms by (rule reconcile_skip)
  then have "reconcile_loop tts atempo records (i # rest) st = reconcile_loop tts atempo records rest st"
    by simp
  moreover have "i \<notin> idx ` set (pieces t)" if t: "dub_track tts atempo records total_length = Inr t" for t
  proof -
    from t obtain r0 rs st' where
      "records = r0 # rs" and
      run: "reconcile_loop tts atempo records [0..<length records] (start_state r0) = Inr st'" and
      "pieces t = chunks st'"
      by (auto simp add: dub_track_def split: list.splits sum.splits)
    from reconcile_loop_idx [OF run] assms have "i \<notin> idx ` set (chunks st')"
      by (auto simp add: start_state_def)
    with \<open>pieces t = chunks st'\<close> show ?thesis by simp
  qed
  ultimately show ?thesis using skip by blast
qed

theorem failed_synthesis_skipped_witness:
  "tts_from 1 1350 0 = None \<and>
   reconcile (tts_from 1 1350) atempo_fails [sentence 0 1, sentence 2 3] 0 (start_state (sentence 0 1))
     = Inr (start_state (sentence 0 1)) \<and>
   dub_track (tts_from 1 1350) atempo_fails [sentence 0 1, sentence 2 3] 3
     = Inr \<lparr>prefix = 0, pieces = [new_chunk 1 0 (Padded 0 1000) 0 0], final_pad = 0\<rparr> \<and>
   0 \<notin> idx ` set (pieces \<lparr>prefix = 0, pieces = [new_chunk 1 0 (Padded 0 1000) 0 0], final_pad = 0\<rparr>)"
proof -
  have h: "tts_from 1 1350 0 = None"
    by (simp add: tts_from_def)
  from failed_synthesis_skipped [where tts = "tts_from 1 1350" and i = 0 and atempo = atempo_fails
      and records = "[sentence 0 1, sentence 2 3]" and st = "start_state (sentence 0 1)"
      and rest = "[]" and total_length = 3] h run_skip_first
  show ?thesis
    by simp
qed

subsection \<open>Sentence segmenter\<close>

text \<open>
  Claim C8. If no character of a sentence is matched to a word, so that the list
  \<^verbatim>\<open>starts\<close> of the sentence is empty when its minimum is taken, the segmenter
  ends with \<^verbatim>\<open>ValueError\<close> whatever the sentences before and behind it are;
  no time stamp is made up for the sentence.
\<close>

theorem unmatched_sentence_raises:
  assumes "snd (sentence_chars time_stamped s (letter_after before) []) = []"
  shows "segment time_stamped (before @ s # rest) = Inl ValueError"
  unfolding segment_def
  using assms stamp_sentences_unmatched [of time_stamped s 0 before rest "[]"]
  by simp

theorem unmatched_sentence_raises_witness:
  "snd (sentence_chars [(''Hi.'', 0, 1)] ''Yo.'' (letter_after [''Hi.'']) []) = [] \<and>
   segment [(''Hi.'', 0, 1)] ([''Hi.''] @ ''Yo.'' # []) = Inl ValueError"
proof -
  have h: "snd (sentence_chars [(''Hi.'', 0, 1)] ''Yo.'' (letter_after [''Hi.'']) []) = []"
    by (simp add: letter_after_def)
  from unmatched_sentence_raises [OF h, of "[]"] h show ?thesis
    by simp
qed

subsection \<open>Speaker attribution\<close>




subsection \<open>Conservation of pauses\<close>

text \<open>
  Claim C2, as stated, equates the silence the track holds (leading prefix,
  trailing silence of every chunk, final silence) with the pauses of the
  original timeline (leading gap, gaps between consecutive sentences, final
  silence). Two runs refute it. A sentence of 3 seconds whose clip lasts 2
  seconds gets 1 second of trailing silence although the timeline has no pause
  at all. And when the synthesis of the first of two sentences fails, the pause
  of 1 second behind it reaches neither the borrowed credit nor the track.
\<close>

theorem emitted_silence_counterexample:
  "dub_track (tts_always 2350) atempo_fails [sentence 0 3] 3
     = Inr \<lparr>prefix = 0, pieces = [new_chunk 0 0 (Padded 0 2000) 1 0], final_pad = 0\<rparr> \<and>
   emitted_silence \<lparr>prefix = 0, pieces = [new_chunk 0 0 (Padded 0 2000) 1 0], final_pad = 0\<rparr> = 1 \<and>
   original_pauses [sentence 0 3] 3 = 0 \<and>
   dub_track (tts_from 1 1350) atempo_fails [sentence 0 1, sentence 2 3] 3
     = Inr \<lparr>prefix = 0, pieces = [new_chunk 1 0 (Padded 0 1000) 0 0], final_pad = 0\<rparr> \<and>
   emitted_silence \<lparr>prefix = 0, pieces = [new_chunk 1 0 (Padded 0 1000) 0 0], final_pad = 0\<rparr> = 0 \<and>
   original_pauses [sentence 0 1, sentence 2 3] 3 = 1"
  using run_short_clip run_skip_first
  by (simp add: emitted_silence_def trailing_silence_def silent_def new_chunk_def
      original_pauses_def sentence_def)

text \<open>
  Claim C2, amended. In a run in which every sentence is synthesized, the
  leading prefix, the borrowed credit every chunk started with, the extra
  silence of every chunk and the final silence add up to the leading gap, the
  gaps between consecutive sentences and the final silence: the tracker
  splits every pause into credit and literal silence and loses nothing.
\<close>

theorem pauses_conserved:
  assumes "\<forall>i<length records. tts i \<noteq> None"
    and "dub_track tts atempo records total_length = Inr t"
  shows "prefix t + sum_list (map pause_share (pieces t)) + final_pad t
       = original_pauses records total_length"
proof -
  from assms(2) obtain r0 rs st where
    recs: "records = r0 # rs" and
    run: "reconcile_loop tts atempo records [0..<length records] (start_state r0) = Inr st" and
    t: "t = \<lparr>prefix = silent (snd (cap_silence (rec_start r0))), pieces = chunks st,
             final_pad = silent (abs (total_length - rec_end (last records)))\<rparr>"
    by (auto simp add: dub_track_def split: list.splits sum.splits)
  from recs have pos: "0 < length records" by simp
  from reconcile_loop_share [OF assms(1) pos _ run]
  have "sum_list (map pause_share (chunks st))
      = fst (cap_silence (rec_start r0)) + sum_list (gaps records)"
    by (simp add: start_state_def)
  moreover have "silent (snd (cap_silence (rec_start r0))) = snd (cap_silence (rec_start r0))"
    using cap_silence_snd_nonneg [of "rec_start r0"] by (simp add: silent_def)
  moreover have "silent (abs (total_length - rec_end (last records))) = abs (total_length - rec_end (last records))"
    by (simp add: silent_def)
  moreover have "hd records = r0"
    by (simp add: recs)
  ultimately show ?thesis
    using cap_silence_sum [of "rec_start r0"]
    by (simp add: t original_pauses_def)
qed

theorem pauses_conserved_witness:
  "dub_track (tts_always 1350) atempo_fails [sentence 1 2, sentence 3.5 4.5] 5
     = Inr \<lparr>prefix = 0.2,
            pieces = [new_chunk 0 0.8 (Padded 0.8 1000) 0 0.7, new_chunk 1 0.8 (Padded 0.8 1000) 0 0],
            final_pad = 0.5\<rparr> \<and>
   0.2 + (pause_share (new_chunk 0 0.8 (Padded 0.8 1000) 0 0.7)
           + pause_share (new_chunk 1 0.8 (Padded 0.8 1000) 0 0)) + 0.5 = 3 \<and>
   original_pauses [sentence 1 2, sentence 3.5 4.5] 5 = 3"
proof -
  have h1: "\<forall>i<length [sentence 1 2, sentence 3.5 4.5]. tts_always 1350 i \<noteq> None"
    by (simp add: tts_always_def)
  from pauses_conserved [OF h1 run_two_padded] run_two_padded show ?thesis
    by (simp add: pause_share_def new_chunk_def original_pauses_def sentence_def)
qed


end
